theory Spec2Isabelle
  imports Main "HOL-Library.Log_Nat" "HOL-Library.Multiset"
begin

section \<open>Numbers\<close>

text \<open>
  Every number of the program is a JavaScript Number, an IEEE 754 binary64 value, and
  every operation on numbers rounds its exact result to the nearest binary64 value,
  ties to the even significand. Values are rationals; overflow to Infinity (results of
  magnitude \<open>2 ^ 1024\<close> and more) and NaN are not modelled.

  The numbers held in a cart line are integers: a catalogue price in cents, and a
  quantity that starts as an integer \<open>1..10\<close> and grows by such integers. They are
  kept as \<open>int\<close> and enter the arithmetic through \<open>of_int\<close>. Every number that the
  program computes from them (quantity of a line after an add, line total, subtotal, tax,
  total) is computed in binary64.
\<close>

definition pow2 :: "int \<Rightarrow> rat" where
  "pow2 e = (if 0 \<le> e then 2 ^ nat e else 1 / 2 ^ nat (- e))"

text \<open>The binary exponent of a positive rational: \<open>pow2 e \<le> x < pow2 (e + 1)\<close>.\<close>

definition ilog2 :: "rat \<Rightarrow> int" where
  "ilog2 x = (let (a, b) = quotient_of x; e = bitlen a - bitlen b
              in if pow2 e \<le> x then e else e - 1)"

definition roundTiesToEven :: "rat \<Rightarrow> int" where
  "roundTiesToEven y = (let n = \<lfloor>y\<rfloor>; d = y - of_int n
     in if d < 1 / 2 then n else if 1 / 2 < d then n + 1
        else if even n then n else n + 1)"

text \<open>
  The binary64 value nearest to a rational. The spacing of binary64 values around \<open>x\<close>
  is \<open>pow2 (ilog2 \<bar>x\<bar> - 52)\<close>, and \<open>pow2 (- 1074)\<close> for subnormal values.
\<close>

definition binary64 :: "rat \<Rightarrow> rat" where
  "binary64 x = (if x = 0 then 0
     else let q = pow2 (max (ilog2 \<bar>x\<bar> - 52) (- 1074))
          in of_int (roundTiesToEven (x / q)) * q)"

text \<open>
  \<open>Math.round(x)\<close>: the integer closest to \<open>x\<close>; of two equally close integers, the
  one closer to plus infinity (ECMAScript, Math.round).
\<close>

definition Math_round :: "rat \<Rightarrow> int" where
  "Math_round x = \<lfloor>x + 1 / 2\<rfloor>"

text \<open>The operators \<open>*\<close>, \<open>+\<close> and \<open>/\<close> on Numbers.\<close>

definition js_times :: "rat \<Rightarrow> rat \<Rightarrow> rat" where
  "js_times a b = binary64 (a * b)"

definition js_plus :: "rat \<Rightarrow> rat \<Rightarrow> rat" where
  "js_plus a b = binary64 (a + b)"

definition js_div :: "rat \<Rightarrow> rat \<Rightarrow> rat" where
  "js_div a b = binary64 (a / b)"

text \<open>
  The sum of two integers, as \<open>+\<close> computes it. The binary64 value nearest to an
  integer is an integer, which the floor reads back.
\<close>

definition js_plus_int :: "int \<Rightarrow> int \<Rightarrow> int" where
  "js_plus_int a b = \<lfloor>js_plus (of_int a) (of_int b)\<rfloor>"

text \<open>
  \<open>const HST_RATE = Number(process.env.HST_RATE || "0.13")\<close>. The rate is read from
  the environment when the process starts, so the operations below take it as a
  parameter; \<open>HST_RATE\<close> is the default, the binary64 value of the literal \<open>0.13\<close>.
\<close>

definition HST_RATE :: rat where
  "HST_RATE = binary64 (13 / 100)"

section \<open>Data\<close>

text \<open>
  The objects of the program share the keys \<open>sku\<close>, \<open>name\<close> and \<open>qty\<close>; the records
  extend one another so that each key keeps its name.
  \<^item> a product of \<open>PRODUCTS\<close>: \<open>{sku, name, price_cents}\<close>;
  \<^item> a cart item: \<open>{sku, name, unit_price_cents, qty}\<close>;
  \<^item> a row of the table \<open>order_items\<close>: the columns
    \<open>(order_id, sku, name, unit_price_cents, qty, line_total_cents)\<close>;
  \<^item> an item of the receipt: \<open>{sku, name, qty, unit_price, line_total}\<close>.
\<close>

record item_base =
  sku :: string
  name :: string

record product = item_base +
  price_cents :: int

record counted = item_base +
  qty :: int

record cart_item = counted +
  unit_price_cents :: int

record order_item_row = cart_item +
  order_id :: nat
  line_total_cents :: rat

record receipt_item = counted +
  unit_price :: string
  line_total :: string

text \<open>
  The value \<open>computeTotals\<close> returns: \<open>{subtotal, hst, total}\<close>. The key \<open>total\<close>
  is the field \<open>total_amt\<close>, since \<open>total\<close> is a constant of HOL.
\<close>

record totals =
  subtotal :: rat
  hst :: rat
  total_amt :: rat

text \<open>
  A row of the table \<open>orders\<close>: the generated key (\<open>insertId\<close>) and the columns
  \<open>(subtotal_cents, hst_rate, hst_cents, total_cents)\<close>.
\<close>

record orders_row =
  insertId :: nat
  subtotal_cents :: rat
  hst_rate :: rat
  hst_cents :: rat
  total_cents :: rat

record receipt =
  receipt_order_id :: nat
  receipt_items :: "receipt_item list"
  receipt_subtotal :: string
  receipt_hst_rate :: rat
  receipt_hst :: string
  receipt_total :: string

text \<open>The body of a request, as \<open>express.json\<close> parses it.\<close>

datatype json =
  JNull
  | JBool bool
  | JNumber rat
  | JString string
  | JArray "json list"
  | JObject "(string \<times> json) list"

text \<open>
  The error codes of the responses, and a handler's outcome: a JSON reply with status
  200, an error reply with its status, or no reply because the handler threw (or its
  promise rejected) outside every \<open>try\<close>.
\<close>

datatype error = invalid_input | cart_empty | checkout_failed

datatype 'a response = Json 'a | Status nat error | Unhandled

section \<open>The relational store\<close>

text \<open>
  Modelled from the spec: the module \<open>./db\<close> (the connection pool) and the MySQL
  server behind it are not among the sources. The spec (External interfaces) asks of the
  store: begin transaction, parameterized insert returning a generated identifier,
  commit, rollback. The store holds the committed rows of the two tables and the counter
  of generated order identifiers; a connection holds the rows written inside its open
  transaction. Commit appends them to the tables, rollback discards them, and releasing a
  connection persists nothing. A call that fails changes nothing and throws.
\<close>

record store =
  orders :: "orders_row list"
  order_items :: "order_item_row list"
  auto_increment :: nat

record txn =
  tx_orders :: "orders_row list"
  tx_order_items :: "order_item_row list"

text \<open>
  The calls a checkout makes on the pool and on its connection. Which of them fail is
  the environment's choice: \<open>f c\<close> holds when the call \<open>c\<close> throws.
  \<open>InsertOrderItem i\<close> is the insert of the line at index \<open>i\<close> of the cart.
\<close>

datatype db_call =
  GetConnection | BeginTransaction | InsertOrder | InsertOrderItem nat | Commit | Rollback

type_synonym faults = "db_call \<Rightarrow> bool"

text \<open>
  Modelled from the spec: \<open>conn.beginTransaction()\<close> of the absent module \<open>./db\<close>
  (begin transaction). The transaction starts with no row written.
\<close>

definition beginTransaction :: "store \<times> txn \<Rightarrow> store \<times> txn" where
  "beginTransaction db = (fst db, \<lparr>tx_orders = [], tx_order_items = []\<rparr>)"

text \<open>
  Modelled from the spec: \<open>conn.query("INSERT INTO orders ...", values)\<close> of the absent
  module \<open>./db\<close> (parameterized insert returning a generated identifier). The row is
  written inside the transaction; the identifier is the counter of the store, which
  moves on and is not given back by a rollback.
\<close>

definition insert_order :: "rat \<Rightarrow> rat \<Rightarrow> rat \<Rightarrow> rat \<Rightarrow> store \<times> txn \<Rightarrow> nat \<times> (store \<times> txn)" where
  "insert_order sub rate tax tot db =
     (let st = fst db; tx = snd db; k = auto_increment st;
          row = \<lparr>insertId = k, subtotal_cents = sub, hst_rate = rate,
                 hst_cents = tax, total_cents = tot\<rparr>
      in (k, (st\<lparr>auto_increment := Suc k\<rparr>, tx\<lparr>tx_orders := tx_orders tx @ [row]\<rparr>)))"

text \<open>
  Modelled from the spec: \<open>conn.query("INSERT INTO order_items ...", values)\<close> of the
  absent module \<open>./db\<close> (parameterized insert). The row is written inside the
  transaction.
\<close>

definition insert_order_item :: "order_item_row \<Rightarrow> store \<times> txn \<Rightarrow> store \<times> txn" where
  "insert_order_item row db =
     (fst db, (snd db)\<lparr>tx_order_items := tx_order_items (snd db) @ [row]\<rparr>)"

text \<open>
  Modelled from the spec: \<open>conn.commit()\<close> of the absent module \<open>./db\<close> (commit). The
  rows written inside the transaction join the tables.
\<close>

definition commit :: "store \<times> txn \<Rightarrow> store \<times> txn" where
  "commit db =
     (let st = fst db; tx = snd db
      in (st\<lparr>orders := orders st @ tx_orders tx,
              order_items := order_items st @ tx_order_items tx\<rparr>,
          \<lparr>tx_orders = [], tx_order_items = []\<rparr>))"

text \<open>
  Modelled from the spec: \<open>conn.rollback()\<close> of the absent module \<open>./db\<close> (rollback).
  The rows written inside the transaction are dropped.
\<close>

definition rollback :: "store \<times> txn \<Rightarrow> store \<times> txn" where
  "rollback db = (fst db, \<lparr>tx_orders = [], tx_order_items = []\<rparr>)"

section \<open>The server\<close>

definition PRODUCTS :: "product list" where
  "PRODUCTS =
     [\<lparr>sku = ''burger'', name = ''Burger'', price_cents = 1000\<rparr>,
      \<lparr>sku = ''fries'', name = ''Fries'', price_cents = 800\<rparr>,
      \<lparr>sku = ''coke'', name = ''Coke'', price_cents = 300\<rparr>]"

text \<open>
  \<open>x.toFixed(2)\<close> for a finite \<open>x\<close> below \<open>10 ^ 21\<close> in magnitude: with \<open>n\<close> the
  integer nearest to \<open>100 * \<bar>x\<bar>\<close> (the larger of two equally near), the digits of
  \<open>n\<close>, at least three of them, with a point before the last two, after a minus sign
  when \<open>x < 0\<close> (ECMAScript, Number.prototype.toFixed).
\<close>

definition digit :: "nat \<Rightarrow> char" where
  "digit d = ''0123456789'' ! d"

fun digits :: "nat \<Rightarrow> string" where
  "digits n = (if n < 10 then [digit n] else digits (n div 10) @ [digit (n mod 10)])"

definition toFixed2 :: "rat \<Rightarrow> string" where
  "toFixed2 x =
     (let n = nat \<lfloor>\<bar>x\<bar> * 100 + 1 / 2\<rfloor>
      in (if x < 0 then ''-'' else '''') @ digits (n div 100) @ ''.''
           @ [digit (n mod 100 div 10), digit (n mod 10)])"

text \<open>\<open>money(cents) = (cents / 100).toFixed(2)\<close>.\<close>

definition money :: "rat \<Rightarrow> string" where
  "money cents = toFixed2 (js_div cents 100)"

text \<open>
  \<open>computeTotals(items)\<close>: the reduce adds, from 0 and in the order of the lines, the
  product \<open>it.unit_price_cents * it.qty\<close> of each line; each product and each sum is
  rounded. \<open>Math.round\<close> gives an integer, and the total is the rounded sum of
  subtotal and tax.
\<close>

definition computeTotals :: "rat \<Rightarrow> cart_item list \<Rightarrow> totals" where
  "computeTotals rate items =
     (let subtotal = foldl (\<lambda>sum it.
            js_plus sum (js_times (of_int (unit_price_cents it)) (of_int (qty it)))) 0 items;
          hst = of_int (Math_round (js_times subtotal rate));
          total = js_plus subtotal hst
      in \<lparr>subtotal = subtotal, hst = hst, total_amt = total\<rparr>)"

text \<open>
  The state a request works on: the cart of its session (\<open>req.session.cart\<close>, undefined
  until \<open>getCart\<close> creates it) and the store.
\<close>

record state =
  session_cart :: "cart_item list option"
  store :: store

definition getCart :: "state \<Rightarrow> cart_item list \<times> state" where
  "getCart s =
     (case session_cart s of
        None \<Rightarrow> ([], s\<lparr>session_cart := Some []\<rparr>)
      | Some cart \<Rightarrow> (cart, s))"

text \<open>
  \<open>GET /api/cart\<close>: the lines of the cart, each with its formatted unit price, and
  the formatted totals with the rate.
\<close>

definition api_cart ::
  "rat \<Rightarrow> state \<Rightarrow> ((cart_item \<times> string) list \<times> string \<times> string \<times> string \<times> rat) response \<times> state" where
  "api_cart rate s =
     (let (cart, s1) = getCart s;
          totals = computeTotals rate cart
      in (Json (map (\<lambda>it. (it, money (of_int (unit_price_cents it)))) cart,
                money (subtotal totals), money (hst totals), money (total_amt totals), rate),
          s1))"

text \<open>
  \<open>addSchema\<close>: the body is an object; \<open>sku\<close> is one of the three strings of the
  enum; \<open>qty\<close> is a number, an integer, at least 1 and at most 10, and 1 when the key
  is absent. A \<open>JObject\<close> lists the properties of the parsed object, each key once;
  they are read with \<open>map_of\<close>.
\<close>

definition sku_schema :: "json option \<Rightarrow> string option" where
  "sku_schema v =
     (case v of
        Some (JString k) \<Rightarrow> if k \<in> set [''burger'', ''fries'', ''coke''] then Some k else None
      | _ \<Rightarrow> None)"

definition qty_schema :: "json option \<Rightarrow> int option" where
  "qty_schema v =
     (case v of
        None \<Rightarrow> Some 1
      | Some (JNumber r) \<Rightarrow>
          if of_int \<lfloor>r\<rfloor> = r \<and> 1 \<le> r \<and> r \<le> 10 then Some \<lfloor>r\<rfloor> else None
      | Some _ \<Rightarrow> None)"

definition addSchema :: "json \<Rightarrow> (string \<times> int) option" where
  "addSchema body =
     (case body of
        JObject kvs \<Rightarrow>
          (case (sku_schema (map_of kvs ''sku''), qty_schema (map_of kvs ''qty'')) of
             (Some k, Some n) \<Rightarrow> Some (k, n)
           | _ \<Rightarrow> None)
      | _ \<Rightarrow> None)"

text \<open>\<open>existing.qty += qty\<close> on the first item of the cart with the given sku.\<close>

fun add_qty :: "string \<Rightarrow> int \<Rightarrow> cart_item list \<Rightarrow> cart_item list" where
  "add_qty k n [] = []"
| "add_qty k n (x # xs) =
     (if sku x = k then x\<lparr>qty := js_plus_int (qty x) n\<rparr> # xs else x # add_qty k n xs)"

text \<open>
  \<open>POST /api/cart/add\<close>. When no product has the sku, \<open>p\<close> is undefined and
  \<open>p.sku\<close> throws; the enum of \<open>addSchema\<close> keeps that from happening.
\<close>

definition api_cart_add :: "json \<Rightarrow> state \<Rightarrow> bool response \<times> state" where
  "api_cart_add body s =
     (case addSchema body of
        None \<Rightarrow> (Status 400 invalid_input, s)
      | Some (k, n) \<Rightarrow>
          (let p = find (\<lambda>x. sku x = k) PRODUCTS;
               (cart, s1) = getCart s
           in case find (\<lambda>x. sku x = k) cart of
                Some existing \<Rightarrow> (Json True, s1\<lparr>session_cart := Some (add_qty k n cart)\<rparr>)
              | None \<Rightarrow>
                  (case p of
                     None \<Rightarrow> (Unhandled, s1)
                   | Some p \<Rightarrow>
                       (Json True,
                        s1\<lparr>session_cart := Some (cart @
                          [\<lparr>sku = sku p, name = name p, qty = n,
                            unit_price_cents = price_cents p\<rparr>])\<rparr>))))"

definition api_cart_clear :: "state \<Rightarrow> bool response \<times> state" where
  "api_cart_clear s = (Json True, s\<lparr>session_cart := Some []\<rparr>)"

text \<open>
  The values bound to the insert into \<open>order_items\<close> for one line of the cart:
  \<open>[orderId, it.sku, it.name, it.unit_price_cents, it.qty, lineTotal]\<close> with
  \<open>lineTotal = it.unit_price_cents * it.qty\<close>.
\<close>

definition order_item_values :: "nat \<Rightarrow> cart_item \<Rightarrow> order_item_row" where
  "order_item_values orderId it =
     (let lineTotal = js_times (of_int (unit_price_cents it)) (of_int (qty it))
      in \<lparr>sku = sku it, name = name it, qty = qty it,
          unit_price_cents = unit_price_cents it,
          order_id = orderId, line_total_cents = lineTotal\<rparr>)"

text \<open>
  The loop of the checkout over the cart: one insert into \<open>order_items\<close> for each
  line, in order. \<open>Inl\<close> is a throw, with the store and the transaction as they are
  then.
\<close>

fun insert_items ::
  "faults \<Rightarrow> nat \<Rightarrow> nat \<Rightarrow> cart_item list \<Rightarrow> store \<times> txn \<Rightarrow> (store \<times> txn) + (store \<times> txn)" where
  "insert_items f orderId i [] db = Inr db"
| "insert_items f orderId i (it # rest) db =
     (if f (InsertOrderItem i) then Inl db
      else insert_items f orderId (Suc i) rest
             (insert_order_item (order_item_values orderId it) db))"

text \<open>The body of the \<open>try\<close> up to the commit; \<open>Inr\<close> carries \<open>orderId\<close>.\<close>

definition checkout_try ::
  "faults \<Rightarrow> rat \<Rightarrow> cart_item list \<Rightarrow> totals \<Rightarrow> store \<times> txn \<Rightarrow> (store \<times> txn) + nat \<times> (store \<times> txn)" where
  "checkout_try f rate cart totals db0 =
     (if f BeginTransaction then Inl db0
      else let db1 = beginTransaction db0
      in if f InsertOrder then Inl db1
      else let (orderId, db2) =
                 insert_order (subtotal totals) rate (hst totals) (total_amt totals) db1
      in case insert_items f orderId 0 cart db2 of
           Inl db3 \<Rightarrow> Inl db3
         | Inr db3 \<Rightarrow> if f Commit then Inl db3 else Inr (orderId, commit db3))"

text \<open>The receipt of the reply, built from \<open>orderId\<close>, \<open>cart\<close> and \<open>totals\<close>.\<close>

definition receipt_of :: "rat \<Rightarrow> nat \<Rightarrow> cart_item list \<Rightarrow> totals \<Rightarrow> receipt" where
  "receipt_of rate orderId cart totals =
     \<lparr>receipt_order_id = orderId,
      receipt_items = map (\<lambda>it.
        \<lparr>sku = sku it, name = name it, qty = qty it,
         unit_price = money (of_int (unit_price_cents it)),
         line_total = money (js_times (of_int (unit_price_cents it)) (of_int (qty it)))\<rparr>)
        cart,
      receipt_subtotal = money (subtotal totals),
      receipt_hst_rate = rate,
      receipt_hst = money (hst totals),
      receipt_total = money (total_amt totals)\<rparr>"

text \<open>
  \<open>POST /api/checkout\<close>. \<open>pool.getConnection()\<close> is awaited outside the \<open>try\<close>,
  and \<open>conn.rollback()\<close> inside the \<open>catch\<close>: when one of them fails the handler
  sends no reply. The connection starts with no open transaction and is released at the
  end, whatever it holds. The receipt is built from \<open>cart\<close> and \<open>totals\<close>, the values
  read before the transaction; \<open>req.session.cart = []\<close> replaces the session's array
  and leaves \<open>cart\<close> as it was.
\<close>

definition api_checkout :: "rat \<Rightarrow> faults \<Rightarrow> state \<Rightarrow> receipt response \<times> state" where
  "api_checkout rate f s =
     (let (cart, s1) = getCart s
      in if length cart = 0 then (Status 400 cart_empty, s1)
      else let totals = computeTotals rate cart
      in if f GetConnection then (Unhandled, s1)
      else case checkout_try f rate cart totals
                  (store s1, \<lparr>tx_orders = [], tx_order_items = []\<rparr>) of
        Inr (orderId, db) \<Rightarrow>
          (Json (receipt_of rate orderId cart totals),
           s1\<lparr>session_cart := Some [], store := fst db\<rparr>)
      | Inl db \<Rightarrow>
          if f Rollback then (Unhandled, s1\<lparr>store := fst db\<rparr>)
          else (Status 500 checkout_failed, s1\<lparr>store := fst (rollback db)\<rparr>))"

text \<open>The lines of the cart as a session sees them.\<close>

definition view :: "state \<Rightarrow> cart_item list" where
  "view s = fst (getCart s)"

text \<open>A session that has not touched its cart, on a store with empty tables.\<close>

definition initial_state :: state where
  "initial_state =
     \<lparr>session_cart = None,
      store = \<lparr>orders = [], order_items = [], auto_increment = 1\<rparr>\<rparr>"

section \<open>The invariant of the persisted orders\<close>

text \<open>
  The lines of an order are the rows of \<open>order_items\<close> that carry its identifier. An
  order is consistent when its total is its subtotal plus its tax, its subtotal is the
  sum of the line totals of its lines, and the line total of each of its lines is the
  unit price times the quantity; the sums and the product are the exact ones. Generated
  identifiers lie below the counter of the store.
\<close>

definition order_lines :: "store \<Rightarrow> nat \<Rightarrow> order_item_row list" where
  "order_lines st k = filter (\<lambda>l. order_id l = k) (order_items st)"




text \<open>
  The exact sum over the lines of unit price times quantity, an integer, and the sum of
  the magnitudes of these products; the two are equal when no price and no quantity is
  negative. A cart is in the exact range at a rate when the sum of the magnitudes is at
  most \<open>2 ^ 53\<close>, and so is the magnitude of the exact sum plus the tax on it.
\<close>

definition line_sum :: "cart_item list \<Rightarrow> int" where
  "line_sum items = (\<Sum>it\<leftarrow>items. unit_price_cents it * qty it)"

definition line_magnitude :: "cart_item list \<Rightarrow> int" where
  "line_magnitude items = (\<Sum>it\<leftarrow>items. \<bar>unit_price_cents it * qty it\<bar>)"


text \<open>
  No call of the transaction fails: \<open>beginTransaction\<close>, the insert of the order, the
  inserts of the \<open>n\<close> lines, \<open>commit\<close>.
\<close>

definition calls_succeed :: "faults \<Rightarrow> nat \<Rightarrow> bool" where
  "calls_succeed f n \<longleftrightarrow>
     \<not> f BeginTransaction \<and> \<not> f InsertOrder \<and> (\<forall>i<n. \<not> f (InsertOrderItem i)) \<and> \<not> f Commit"

text \<open>The row of \<open>orders\<close> that a checkout in state \<open>s\<close> inserts.\<close>

definition new_order :: "rat \<Rightarrow> state \<Rightarrow> orders_row" where
  "new_order rate s =
     (let totals = computeTotals rate (view s)
      in \<lparr>insertId = auto_increment (store s), subtotal_cents = subtotal totals,
          hst_rate = rate, hst_cents = hst totals, total_cents = total_amt totals\<rparr>)"

text \<open>
  The cart of the spec's examples, lines \<open>[(1000, 1), (800, 1), (300, 2)]\<close>, and a
  session that holds it on a store with empty tables.
\<close>

definition example_cart :: "cart_item list" where
  "example_cart =
     [\<lparr>sku = ''burger'', name = ''Burger'', qty = 1, unit_price_cents = 1000\<rparr>,
      \<lparr>sku = ''fries'', name = ''Fries'', qty = 1, unit_price_cents = 800\<rparr>,
      \<lparr>sku = ''coke'', name = ''Coke'', qty = 2, unit_price_cents = 300\<rparr>]"

definition example_state :: state where
  "example_state = initial_state\<lparr>session_cart := Some example_cart\<rparr>"


definition large_cart :: "cart_item list" where
  "large_cart =
     [\<lparr>sku = ''burger'', name = ''Burger'', qty = 1, unit_price_cents = 9007199254740992\<rparr>,
      \<lparr>sku = ''fries'', name = ''Fries'', qty = 1, unit_price_cents = 1\<rparr>,
      \<lparr>sku = ''coke'', name = ''Coke'', qty = 1, unit_price_cents = 1\<rparr>]"

text \<open>A session whose cart holds \<open>2 ^ 53\<close> burgers.\<close>

definition burgers_state :: state where
  "burgers_state = initial_state\<lparr>session_cart := Some
     [\<lparr>sku = ''burger'', name = ''Burger'', qty = 9007199254740992,
       unit_price_cents = 1000\<rparr>]\<rparr>"



definition half_cart :: "cart_item list" where
  "half_cart = [\<lparr>sku = ''coke'', name = ''Coke'', qty = 1, unit_price_cents = 50\<rparr>]"

section \<open>Binary64 rounding\<close>

lemma pow2_powi: "pow2 e = 2 powi e"
  by (simp add: pow2_def power_int_def power_one_over inverse_eq_divide flip: power_inverse)

lemma pow2_pos: "0 < pow2 e"
  by (simp add: pow2_powi)

lemma pow2_mono: "a \<le> b \<Longrightarrow> pow2 a \<le> pow2 b"
  by (simp add: pow2_powi power_int_increasing)

lemma pow2_add: "pow2 (a + b) = pow2 a * pow2 b"
  by (simp add: pow2_powi power_int_add)


lemma pow2_neg: "pow2 (- int n) = 1 / 2 ^ n"
  by (simp add: pow2_powi power_int_minus inverse_eq_divide)

lemma ilog2_bounds:
  assumes "0 < x"
  shows "pow2 (ilog2 x) \<le> x \<and> x < pow2 (ilog2 x + 1)"
proof -
  obtain a b where ab: "quotient_of x = (a, b)" by (cases "quotient_of x")
  then have b: "0 < b" by (rule quotient_of_denom_pos)
  have x: "x = of_int a / of_int b" using ab by (rule quotient_of_div)
  with assms b have a: "0 < a" by (simp add: zero_less_divide_iff)
  define e where "e = bitlen a - bitlen b"
  have la: "1 \<le> bitlen a" and lb: "1 \<le> bitlen b"
    using a b by (simp_all add: bitlen_alt_def)
  from bitlen_bounds [OF a]
  have a1: "(2::rat) ^ nat (bitlen a - 1) \<le> of_int a"
    and a2: "of_int a < (2::rat) ^ nat (bitlen a)"
    by (metis of_int_le_iff of_int_numeral of_int_power,
        metis of_int_less_iff of_int_numeral of_int_power)
  from bitlen_bounds [OF b]
  have b1: "(2::rat) ^ nat (bitlen b - 1) \<le> of_int b"
    and b2: "of_int b < (2::rat) ^ nat (bitlen b)"
    by (metis of_int_le_iff of_int_numeral of_int_power,
        metis of_int_less_iff of_int_numeral of_int_power)
  have pa: "pow2 (bitlen a) = 2 ^ nat (bitlen a)" "pow2 (bitlen a - 1) = 2 ^ nat (bitlen a - 1)"
    and pb: "pow2 (bitlen b) = 2 ^ nat (bitlen b)" "pow2 (bitlen b - 1) = 2 ^ nat (bitlen b - 1)"
    using la lb by (simp_all add: pow2_def)
  have up: "x < pow2 (e + 1)"
  proof -
    have "of_int a < pow2 (e + 1) * pow2 (bitlen b - 1)"
      using a2 pa by (simp add: e_def flip: pow2_add)
    also have "\<dots> \<le> pow2 (e + 1) * of_int b"
      using b1 pb pow2_pos [of "e + 1"] by simp
    finally show ?thesis using b by (simp add: x pos_divide_less_eq)
  qed
  have lo: "pow2 (e - 1) \<le> x"
  proof -
    have "pow2 (e - 1) * of_int b \<le> pow2 (e - 1) * pow2 (bitlen b)"
      using b2 pb pow2_pos [of "e - 1"] by simp
    also have "\<dots> \<le> of_int a"
      using a1 pa by (simp add: e_def flip: pow2_add)
    finally show ?thesis using b by (simp add: x pos_le_divide_eq)
  qed
  have "ilog2 x = (if pow2 e \<le> x then e else e - 1)"
    by (simp add: ilog2_def ab e_def Let_def)
  then show ?thesis using up lo by (auto simp: not_le)
qed

lemma ilog2_less:
  assumes "0 < x" "x < pow2 n"
  shows "ilog2 x < n"
proof (rule ccontr)
  assume "\<not> ilog2 x < n"
  then have "pow2 n \<le> pow2 (ilog2 x)" by (simp add: pow2_mono)
  with ilog2_bounds [OF assms(1)] assms(2) show False by simp
qed




lemma roundTiesToEven_of_int: "roundTiesToEven (of_int n) = n"
  by (simp add: roundTiesToEven_def)

lemma binary64_of_int:
  assumes "\<bar>n\<bar> \<le> 2 ^ 53"
  shows "binary64 (of_int n) = of_int n"
proof (cases "n = 0")
  case True
  then show ?thesis by (simp add: binary64_def)
next
  case False
  define x :: rat where "x = of_int n"
  define e where "e = ilog2 \<bar>x\<bar>"
  have x1: "1 \<le> \<bar>x\<bar>" using False by (simp add: x_def flip: of_int_abs)
  have x2: "\<bar>x\<bar> \<le> 2 ^ 53"
    using assms unfolding x_def
    by (metis of_int_abs of_int_le_iff of_int_numeral of_int_power)
  have pos: "0 < \<bar>x\<bar>" using x1 by simp
  note b = ilog2_bounds [OF pos, folded e_def]
  have "\<bar>x\<bar> < pow2 54" using x2 by (simp add: pow2_def)
  with pos have e_hi: "e < 54" unfolding e_def by (rule ilog2_less)
  have e_lo: "0 \<le> e"
  proof (rule ccontr)
    assume "\<not> 0 \<le> e"
    then have "pow2 (e + 1) \<le> pow2 0" by (intro pow2_mono) simp
    with b x1 show False by (simp add: pow2_def)
  qed
  have fl: "binary64 x = of_int (roundTiesToEven (x / pow2 (e - 52))) * pow2 (e - 52)"
  proof -
    have "x \<noteq> 0" using pos by simp
    moreover have "max (e - 52) (- 1074) = e - 52" using e_lo by simp
    ultimately show ?thesis
      by (simp add: binary64_def e_def [symmetric] Let_def)
  qed
  show ?thesis
  proof (cases "e \<le> 52")
    case True
    define j where "j = nat (52 - e)"
    have p: "pow2 (e - 52) = 1 / 2 ^ j"
      using True pow2_neg [of j] by (simp add: j_def)
    have "x / pow2 (e - 52) = of_int (n * 2 ^ j)"
      by (simp add: p x_def)
    then have "binary64 x = of_int (n * 2 ^ j) * (1 / 2 ^ j)"
      unfolding fl by (simp only: roundTiesToEven_of_int p)
    then show ?thesis by (simp add: x_def)
  next
    case False
    with e_hi have e: "e = 53" by simp
    with b have "2 ^ 53 \<le> \<bar>x\<bar>" by (simp add: pow2_def)
    with x2 have "\<bar>x\<bar> = 2 ^ 53" by simp
    then have "\<bar>n\<bar> = 2 ^ 53"
      unfolding x_def by (metis of_int_abs of_int_eq_iff of_int_numeral of_int_power)
    then have "n = 2 ^ 53 \<or> n = - (2 ^ 53)" by (simp add: abs_if split: if_splits)
    then have "n = 2 * (n div 2)" by auto
    then have "x / 2 = of_int (n div 2)"
      unfolding x_def by (metis of_int_mult of_int_numeral nonzero_mult_div_cancel_left zero_neq_numeral)
    then have "binary64 x = of_int (n div 2) * 2"
      unfolding fl e by (simp add: pow2_def roundTiesToEven_of_int)
    also have "\<dots> = of_int (2 * (n div 2))" by simp
    also have "\<dots> = x" using \<open>n = 2 * (n div 2)\<close> by (simp add: x_def)
    finally show ?thesis by (simp add: x_def)
  qed
qed





lemma binary64_integer: "binary64 (of_int n) \<in> \<int>"
proof (cases "\<bar>n\<bar> \<le> 2 ^ 53")
  case True
  then show ?thesis by (simp add: binary64_of_int)
next
  case False
  define x :: rat where "x = of_int n"
  from False have "(2::int) ^ 53 < \<bar>n\<bar>" by simp
  then have "(of_int (2 ^ 53) :: rat) < of_int \<bar>n\<bar>"
    by (simp only: of_int_less_iff)
  then have big: "2 ^ 53 < \<bar>x\<bar>"
    by (simp add: x_def)
  then have pos: "0 < \<bar>x\<bar>"
    by (rule less_trans [rotated]) simp
  from ilog2_bounds [OF pos] have up: "\<bar>x\<bar> < pow2 (ilog2 \<bar>x\<bar> + 1)" ..
  have p: "pow2 53 = 2 ^ 53"
    by (simp add: pow2_def)
  from big up have "pow2 53 < pow2 (ilog2 \<bar>x\<bar> + 1)"
    unfolding p by (rule less_trans)
  then have "\<not> ilog2 \<bar>x\<bar> + 1 \<le> 53"
    using pow2_mono [of "ilog2 \<bar>x\<bar> + 1" 53] by linarith
  then have e: "1 \<le> ilog2 \<bar>x\<bar> - 52" by simp
  define m where "m = nat (ilog2 \<bar>x\<bar> - 52)"
  have q: "pow2 (max (ilog2 \<bar>x\<bar> - 52) (- 1074)) = of_int (2 ^ m)"
    using e by (simp add: pow2_def m_def max_def)
  have "x \<noteq> 0" using pos by simp
  then have "binary64 x = of_int (roundTiesToEven (x / of_int (2 ^ m)) * 2 ^ m)"
    by (simp add: binary64_def Let_def q)
  then show ?thesis
    unfolding x_def by (simp only: Ints_of_int)
qed

lemma js_plus_int_eq: "of_int (js_plus_int a b) = js_plus (of_int a) (of_int b)"
proof -
  have "binary64 (of_int (a + b)) \<in> \<int>"
    by (rule binary64_integer)
  then have "of_int \<lfloor>binary64 (of_int (a + b))\<rfloor> = binary64 (of_int (a + b))"
    by (rule Ints_cases) simp
  then show ?thesis
    by (simp add: js_plus_int_def js_plus_def)
qed

lemma js_plus_int_exact:
  assumes "\<bar>a + b\<bar> \<le> 2 ^ 53"
  shows "js_plus_int a b = a + b"
proof -
  have "js_plus (of_int a) (of_int b) = binary64 (of_int (a + b))"
    by (simp add: js_plus_def)
  also have "\<dots> = of_int (a + b)"
    using assms by (rule binary64_of_int)
  finally show ?thesis
    by (simp only: js_plus_int_def floor_of_int)
qed

section \<open>Totals\<close>




lemma hst_computeTotals:
  "hst (computeTotals rate items)
     = of_int (Math_round (binary64 (subtotal (computeTotals rate items) * rate)))"
  by (simp add: computeTotals_def Let_def js_times_def)

lemma total_computeTotals:
  "total_amt (computeTotals rate items)
     = binary64 (subtotal (computeTotals rate items) + hst (computeTotals rate items))"
  by (simp add: computeTotals_def Let_def js_plus_def)

lemma computeTotals_subtotal_cong:
  assumes "subtotal (computeTotals rate items) = subtotal (computeTotals rate items')"
  shows "computeTotals rate items = computeTotals rate items'"
proof -
  have "computeTotals rate xs =
      \<lparr>subtotal = subtotal (computeTotals rate xs),
       hst = of_int (Math_round (js_times (subtotal (computeTotals rate xs)) rate)),
       total_amt = js_plus (subtotal (computeTotals rate xs))
         (of_int (Math_round (js_times (subtotal (computeTotals rate xs)) rate)))\<rparr>" for xs
    by (simp add: computeTotals_def Let_def)
  from this [of items] this [of items'] assms show ?thesis by simp
qed

lemma line_magnitude_nonneg: "0 \<le> line_magnitude items"
  unfolding line_magnitude_def by (intro sum_list_nonneg) auto


lemma line_magnitude_nonneg_lines:
  assumes "\<forall>it\<in>set items. 0 \<le> unit_price_cents it \<and> 0 \<le> qty it"
  shows "line_magnitude items = line_sum items"
  using assms unfolding line_sum_def line_magnitude_def
  by (induction items) simp_all

lemma foldl_binary64_exact:
  assumes "\<bar>a\<bar> + line_magnitude items \<le> 2 ^ 53"
  shows "foldl (\<lambda>sum it.
            js_plus sum (js_times (of_int (unit_price_cents it)) (of_int (qty it))))
          (of_int a) items
       = of_int (a + line_sum items)"
  using assms
proof (induction items arbitrary: a)
  case Nil
  then show ?case by (simp add: line_sum_def)
next
  case (Cons it items)
  define m where "m = unit_price_cents it * qty it"
  have rest: "0 \<le> line_magnitude items"
    by (rule line_magnitude_nonneg)
  have bound: "\<bar>a\<bar> + \<bar>m\<bar> + line_magnitude items \<le> 2 ^ 53"
    using Cons.prems by (simp add: m_def line_magnitude_def)
  have "js_times (of_int (unit_price_cents it)) (of_int (qty it)) = binary64 (of_int m)"
    by (simp add: js_times_def m_def)
  also have "\<dots> = of_int m"
    using rest bound by (intro binary64_of_int) simp
  finally have t: "js_times (of_int (unit_price_cents it)) (of_int (qty it)) = of_int m" .
  have "js_plus (of_int a) (of_int m) = binary64 (of_int (a + m))"
    by (simp add: js_plus_def)
  also have "\<dots> = of_int (a + m)"
    using rest bound by (intro binary64_of_int) simp
  finally have p: "js_plus (of_int a) (of_int m) = of_int (a + m)" .
  let ?F = "\<lambda>sum it.
    js_plus sum (js_times (of_int (unit_price_cents it)) (of_int (qty it)))"
  have "foldl ?F (of_int a) (it # items) = foldl ?F (of_int (a + m)) items"
    by (simp only: foldl_Cons t p)
  also have "\<dots> = of_int (a + m + line_sum items)"
    using bound by (intro Cons.IH) simp
  also have "a + m + line_sum items = a + line_sum (it # items)"
    by (simp add: m_def line_sum_def)
  finally show ?case .
qed

lemma subtotal_computeTotals:
  assumes "line_magnitude items \<le> 2 ^ 53"
  shows "subtotal (computeTotals rate items) = of_int (line_sum items)"
  using foldl_binary64_exact [of 0 items] assms
  by (simp add: computeTotals_def Let_def)


lemma total_computeTotals_exact:
  assumes "subtotal (computeTotals rate items) = of_int n"
    and "\<bar>subtotal (computeTotals rate items) + hst (computeTotals rate items)\<bar> \<le> 2 ^ 53"
  shows "total_amt (computeTotals rate items)
      = subtotal (computeTotals rate items) + hst (computeTotals rate items)"
proof -
  define h where "h = Math_round (binary64 (subtotal (computeTotals rate items) * rate))"
  have h: "hst (computeTotals rate items) = of_int h"
    by (simp only: hst_computeTotals h_def)
  from assms(2) have "\<bar>of_int (n + h) :: rat\<bar> \<le> 2 ^ 53"
    by (simp add: assms(1) h)
  then have "\<bar>n + h\<bar> \<le> 2 ^ 53"
    by (metis of_int_abs of_int_le_iff of_int_numeral of_int_power)
  then have "binary64 (of_int (n + h)) = of_int (n + h)"
    by (rule binary64_of_int)
  then show ?thesis
    by (simp add: total_computeTotals assms(1) h)
qed




lemma computeTotals_example_cart:
  "computeTotals HST_RATE example_cart = \<lparr>subtotal = 2400, hst = 312, total_amt = 2712\<rparr>"
  by code_simp

lemma computeTotals_large_cart:
  "computeTotals HST_RATE large_cart
     = \<lparr>subtotal = 9007199254740992, hst = 1170935903116329,
        total_amt = 10178135157857320\<rparr>"
  by code_simp

lemma computeTotals_rev_large_cart:
  "computeTotals HST_RATE (rev large_cart)
     = \<lparr>subtotal = 9007199254740994, hst = 1170935903116329,
        total_amt = 10178135157857324\<rparr>"
  by code_simp



lemma computeTotals_half_cart:
  "computeTotals HST_RATE half_cart = \<lparr>subtotal = 50, hst = 7, total_amt = 57\<rparr>"
  by code_simp

section \<open>The cart\<close>

lemma view_eq: "view s = (case session_cart s of None \<Rightarrow> [] | Some cart \<Rightarrow> cart)"
  by (simp add: view_def getCart_def split: option.splits)

lemma getCart_eq: "getCart s = (view s, s\<lparr>session_cart := Some (view s)\<rparr>)"
  by (simp add: view_def getCart_def split: option.splits)

lemma find_None_iff_sku: "find (\<lambda>x. sku x = k) xs = None \<longleftrightarrow> k \<notin> sku ` set xs"
  by (induction xs) auto

lemma add_qty_update:
  "k \<in> sku ` set cart \<Longrightarrow>
   add_qty k n cart =
     cart[length (takeWhile (\<lambda>x. sku x \<noteq> k) cart) :=
            (cart ! length (takeWhile (\<lambda>x. sku x \<noteq> k) cart))
              \<lparr>qty := js_plus_int
                 (qty (cart ! length (takeWhile (\<lambda>x. sku x \<noteq> k) cart))) n\<rparr>]"
  by (induction cart) auto

lemma sku_schema_string:
  "sku_schema (Some (JString k)) = (if k \<in> sku ` set PRODUCTS then Some k else None)"
  by (simp add: sku_schema_def PRODUCTS_def)

lemma qty_schema_number:
  "qty_schema (Some (JNumber r)) = (if r \<in> \<int> \<and> 1 \<le> r \<and> r \<le> 10 then Some \<lfloor>r\<rfloor> else None)"
  by (auto simp: qty_schema_def Ints_def)

lemma api_cart_add_parsed:
  assumes "addSchema body = Some (k, n)" and "find (\<lambda>x. sku x = k) PRODUCTS = Some p"
  shows "api_cart_add body s =
     (Json True,
      s\<lparr>session_cart := Some
        (let cart = view s; i = length (takeWhile (\<lambda>x. sku x \<noteq> k) cart)
         in if k \<in> sku ` set cart
            then cart[i := (cart ! i)\<lparr>qty := js_plus_int (qty (cart ! i)) n\<rparr>]
            else cart @ [\<lparr>sku = k, name = name p, qty = n,
                          unit_price_cents = price_cents p\<rparr>])\<rparr>)"
proof (cases "k \<in> sku ` set (view s)")
  case True
  then obtain existing where "find (\<lambda>x. sku x = k) (view s) = Some existing"
    using find_None_iff_sku [of k "view s"] by (cases "find (\<lambda>x. sku x = k) (view s)") auto
  with True assms show ?thesis
    by (simp add: api_cart_add_def getCart_eq Let_def add_qty_update)
next
  case False
  then have "find (\<lambda>x. sku x = k) (view s) = None"
    by (simp add: find_None_iff_sku)
  moreover from assms(2) have "sku p = k"
    by (auto simp: find_Some_iff)
  ultimately show ?thesis
    using False assms by (simp add: api_cart_add_def getCart_eq Let_def)
qed

lemma view_update [simp]:
  "view (s\<lparr>session_cart := Some c\<rparr>) = c" "view (s\<lparr>store := st\<rparr>) = view s"
  by (simp_all add: view_eq)

lemma getCart_nonempty:
  assumes "view s \<noteq> []"
  shows "getCart s = (view s, s)"
  using assms by (cases "session_cart s") (simp_all add: getCart_def view_eq)

section \<open>The checkout\<close>

lemma insert_items_Inr_iff:
  "(\<exists>d. insert_items f k i cart db = Inr d) \<longleftrightarrow> (\<forall>j<length cart. \<not> f (InsertOrderItem (i + j)))"
  by (induction cart arbitrary: i db) (simp_all add: All_less_Suc2)

lemma insert_items_Inr:
  "insert_items f k i cart db = Inr d \<Longrightarrow>
   d = (fst db, (snd db)\<lparr>tx_order_items := tx_order_items (snd db) @ map (order_item_values k) cart\<rparr>)"
proof (induction cart arbitrary: i db)
  case Nil
  then show ?case by simp
next
  case (Cons it rest)
  then have "insert_items f k (Suc i) rest (insert_order_item (order_item_values k it) db) = Inr d"
    by (simp split: if_splits)
  from Cons.IH [OF this] show ?case by (simp add: insert_order_item_def)
qed

lemma insert_items_Inl:
  "insert_items f k i cart db = Inl d \<Longrightarrow> fst d = fst db"
proof (induction cart arbitrary: i db)
  case Nil
  then show ?case by simp
next
  case (Cons it rest)
  show ?case
  proof (cases "f (InsertOrderItem i)")
    case True
    with Cons.prems show ?thesis by simp
  next
    case False
    with Cons.prems
    have "insert_items f k (Suc i) rest (insert_order_item (order_item_values k it) db) = Inl d"
      by simp
    from Cons.IH [OF this] show ?thesis by (simp add: insert_order_item_def)
  qed
qed

lemma checkout_try_unfold:
  assumes "\<not> f BeginTransaction" "\<not> f InsertOrder"
  shows "checkout_try f rate cart t (st, tx) =
     (case insert_items f (auto_increment st) 0 cart
        (st\<lparr>auto_increment := Suc (auto_increment st)\<rparr>,
         \<lparr>tx_orders = [\<lparr>insertId = auto_increment st, subtotal_cents = subtotal t,
             hst_rate = rate, hst_cents = hst t, total_cents = total_amt t\<rparr>],
          tx_order_items = []\<rparr>) of
        Inl d \<Rightarrow> Inl d
      | Inr d \<Rightarrow> if f Commit then Inl d else Inr (auto_increment st, commit d))"
  using assms
  by (simp add: checkout_try_def beginTransaction_def insert_order_def Let_def split: sum.splits)

lemma checkout_try_Inr:
  assumes "checkout_try f rate cart t (st, tx) = Inr (k, db)"
  shows "k = auto_increment st \<and>
    fst db = st\<lparr>orders := orders st @
             [\<lparr>insertId = k, subtotal_cents = subtotal t, hst_rate = rate,
               hst_cents = hst t, total_cents = total_amt t\<rparr>],
           order_items := order_items st @ map (order_item_values k) cart,
           auto_increment := Suc k\<rparr>"
proof -
  from assms have nf: "\<not> f BeginTransaction" "\<not> f InsertOrder"
    by (auto simp: checkout_try_def split: if_splits)
  from assms obtain d where d: "insert_items f (auto_increment st) 0 cart
        (st\<lparr>auto_increment := Suc (auto_increment st)\<rparr>,
         \<lparr>tx_orders = [\<lparr>insertId = auto_increment st, subtotal_cents = subtotal t,
             hst_rate = rate, hst_cents = hst t, total_cents = total_amt t\<rparr>],
          tx_order_items = []\<rparr>) = Inr d"
    and k: "k = auto_increment st" and db: "db = commit d"
    unfolding checkout_try_unfold [OF nf] by (auto split: sum.splits if_splits)
  from insert_items_Inr [OF d] db k show ?thesis
    by (simp add: commit_def)
qed

lemma checkout_try_Inl:
  assumes "checkout_try f rate cart t (st, tx) = Inl db"
  shows "orders (fst db) = orders st \<and> order_items (fst db) = order_items st
    \<and> auto_increment st \<le> auto_increment (fst db)"
proof (cases "f BeginTransaction \<or> f InsertOrder")
  case True
  with assms show ?thesis
    by (auto simp: checkout_try_def beginTransaction_def split: if_splits)
next
  case False
  then have nf: "\<not> f BeginTransaction" "\<not> f InsertOrder" by simp_all
  from assms obtain d where "insert_items f (auto_increment st) 0 cart
        (st\<lparr>auto_increment := Suc (auto_increment st)\<rparr>,
         \<lparr>tx_orders = [\<lparr>insertId = auto_increment st, subtotal_cents = subtotal t,
             hst_rate = rate, hst_cents = hst t, total_cents = total_amt t\<rparr>],
          tx_order_items = []\<rparr>) = d" and "fst (case d of Inl d \<Rightarrow> d | Inr d \<Rightarrow> d) = fst db"
    unfolding checkout_try_unfold [OF nf] by (auto split: sum.splits if_splits)
  then have "fst db = st\<lparr>auto_increment := Suc (auto_increment st)\<rparr>"
    by (cases d) (auto dest: insert_items_Inl insert_items_Inr)
  then show ?thesis by simp
qed

lemma checkout_try_Inr_iff:
  "(\<exists>r. checkout_try f rate cart t (st, tx) = Inr r) \<longleftrightarrow> calls_succeed f (length cart)"
proof (cases "f BeginTransaction \<or> f InsertOrder")
  case True
  then show ?thesis
    by (auto simp: checkout_try_def calls_succeed_def)
next
  case False
  then have nf: "\<not> f BeginTransaction" "\<not> f InsertOrder" by simp_all
  show ?thesis
    unfolding checkout_try_unfold [OF nf]
    using insert_items_Inr_iff [of f "auto_increment st" 0 cart
        "(st\<lparr>auto_increment := Suc (auto_increment st)\<rparr>,
         \<lparr>tx_orders = [\<lparr>insertId = auto_increment st, subtotal_cents = subtotal t,
             hst_rate = rate, hst_cents = hst t, total_cents = total_amt t\<rparr>],
          tx_order_items = []\<rparr>)"] nf
    by (auto simp: calls_succeed_def split: sum.splits)
qed

lemma api_checkout_empty:
  assumes "view s = []"
  shows "api_checkout rate f s = (Status 400 cart_empty, s\<lparr>session_cart := Some []\<rparr>)"
  using assms by (simp add: api_checkout_def getCart_eq)

lemma api_checkout_nonempty:
  assumes "view s \<noteq> []"
  shows "api_checkout rate f s =
     (if f GetConnection then (Unhandled, s)
      else case checkout_try f rate (view s) (computeTotals rate (view s))
                  (store s, \<lparr>tx_orders = [], tx_order_items = []\<rparr>) of
        Inr (orderId, db) \<Rightarrow>
          (Json (receipt_of rate orderId (view s) (computeTotals rate (view s))),
           s\<lparr>session_cart := Some [], store := fst db\<rparr>)
      | Inl db \<Rightarrow>
          if f Rollback then (Unhandled, s\<lparr>store := fst db\<rparr>)
          else (Status 500 checkout_failed, s\<lparr>store := fst (rollback db)\<rparr>))"
  using assms by (simp add: api_checkout_def getCart_nonempty Let_def)

lemma api_checkout_Json:
  assumes "api_checkout rate f s = (Json r, s')"
  shows "view s \<noteq> []"
    and "r = receipt_of rate (auto_increment (store s)) (view s) (computeTotals rate (view s))"
    and "s' = s\<lparr>session_cart := Some [],
               store := (store s)\<lparr>orders := orders (store s) @ [new_order rate s],
                 order_items := order_items (store s)
                   @ map (order_item_values (auto_increment (store s))) (view s),
                 auto_increment := Suc (auto_increment (store s))\<rparr>\<rparr>"
proof -
  show ne: "view s \<noteq> []"
    using assms by (auto simp: api_checkout_empty)
  from assms obtain k db where tr: "checkout_try f rate (view s) (computeTotals rate (view s))
        (store s, \<lparr>tx_orders = [], tx_order_items = []\<rparr>) = Inr (k, db)"
    and r: "r = receipt_of rate k (view s) (computeTotals rate (view s))"
    and s': "s' = s\<lparr>session_cart := Some [], store := fst db\<rparr>"
    unfolding api_checkout_nonempty [OF ne]
    by (auto split: if_splits sum.splits)
  from checkout_try_Inr [OF tr] r
  show "r = receipt_of rate (auto_increment (store s)) (view s) (computeTotals rate (view s))"
    by simp
  from checkout_try_Inr [OF tr] s'
  show "s' = s\<lparr>session_cart := Some [],
               store := (store s)\<lparr>orders := orders (store s) @ [new_order rate s],
                 order_items := order_items (store s)
                   @ map (order_item_values (auto_increment (store s))) (view s),
                 auto_increment := Suc (auto_increment (store s))\<rparr>\<rparr>"
    by (simp add: new_order_def Let_def)
qed

lemma api_checkout_not_Json:
  assumes "fst (api_checkout rate f s)
     \<noteq> Json (receipt_of rate (auto_increment (store s)) (view s) (computeTotals rate (view s)))"
  shows "orders (store (snd (api_checkout rate f s))) = orders (store s)
    \<and> order_items (store (snd (api_checkout rate f s))) = order_items (store s)
    \<and> auto_increment (store s) \<le> auto_increment (store (snd (api_checkout rate f s)))
    \<and> view (snd (api_checkout rate f s)) = view s"
proof (cases "view s = []")
  case True
  then show ?thesis by (simp add: api_checkout_empty)
next
  case False
  note co = api_checkout_nonempty [OF False, of rate f]
  show ?thesis
  proof (cases "checkout_try f rate (view s) (computeTotals rate (view s))
        (store s, \<lparr>tx_orders = [], tx_order_items = []\<rparr>)")
    case (Inl db)
    from checkout_try_Inl [OF Inl] show ?thesis
      unfolding co Inl by (simp add: rollback_def)
  next
    case (Inr p)
    obtain k db where p: "p = (k, db)" by (cases p)
    from checkout_try_Inr [OF Inr [unfolded p]] assms show ?thesis
      unfolding co Inr p by (simp split: if_splits)
  qed
qed

section \<open>The claims about the totals\<close>

lemma sum_list_mset_cong:
  fixes f :: "'a \<Rightarrow> int"
  assumes "mset xs = mset ys"
  shows "sum_list (map f xs) = sum_list (map f ys)"
proof -
  have "sum_list (map f xs) = sum_mset (image_mset f (mset xs))"
    by (simp add: sum_mset_sum_list flip: mset_map)
  also have "\<dots> = sum_list (map f ys)"
    unfolding assms by (simp add: sum_mset_sum_list flip: mset_map)
  finally show ?thesis .
qed


text \<open>
  Claim C3, in the range where it holds. When the magnitudes of the line amounts (unit
  price times quantity) sum to at most \<open>2 ^ 53\<close> cents, which for prices and quantities
  that are not negative says that the exact subtotal is at most \<open>2 ^ 53\<close>, the subtotal
  that \<open>computeTotals\<close> returns is exactly the sum over the lines of unit price times
  quantity, with no rounding error; and the total is exactly the subtotal plus the tax
  when that sum has a magnitude of at most \<open>2 ^ 53\<close>. The lines
  \<open>[(1000, 1), (800, 1), (300, 2)]\<close> give the subtotal 2400.
\<close>

theorem computeTotals_exact:
  assumes "(\<Sum>it\<leftarrow>items. \<bar>unit_price_cents it * qty it\<bar>) \<le> 2 ^ 53"
  shows "subtotal (computeTotals rate items)
       = of_int (\<Sum>it\<leftarrow>items. unit_price_cents it * qty it)
    \<and> (\<bar>subtotal (computeTotals rate items) + hst (computeTotals rate items)\<bar> \<le> 2 ^ 53 \<longrightarrow>
        total_amt (computeTotals rate items)
          = subtotal (computeTotals rate items) + hst (computeTotals rate items))
    \<and> subtotal (computeTotals rate example_cart) = 2400"
proof -
  from assms have "line_magnitude items \<le> 2 ^ 53"
    by (simp only: line_magnitude_def)
  then have s: "subtotal (computeTotals rate items) = of_int (line_sum items)"
    by (rule subtotal_computeTotals)
  then have 1: "subtotal (computeTotals rate items)
       = of_int (\<Sum>it\<leftarrow>items. unit_price_cents it * qty it)"
    by (simp only: line_sum_def)
  have 2: "\<bar>subtotal (computeTotals rate items) + hst (computeTotals rate items)\<bar> \<le> 2 ^ 53 \<longrightarrow>
        total_amt (computeTotals rate items)
          = subtotal (computeTotals rate items) + hst (computeTotals rate items)"
    using total_computeTotals_exact [OF s] by blast
  have "line_magnitude example_cart \<le> 2 ^ 53"
    by (simp add: line_magnitude_def example_cart_def)
  then have "subtotal (computeTotals rate example_cart) = of_int (line_sum example_cart)"
    by (rule subtotal_computeTotals)
  then have 3: "subtotal (computeTotals rate example_cart) = 2400"
    by (simp add: line_sum_def example_cart_def)
  from 1 2 3 show ?thesis by (intro conjI)
qed

theorem computeTotals_exact_witness:
  "(\<Sum>it\<leftarrow>example_cart. \<bar>unit_price_cents it * qty it\<bar>) = 2400
   \<and> subtotal (computeTotals HST_RATE example_cart) = 2400
   \<and> hst (computeTotals HST_RATE example_cart) = 312
   \<and> total_amt (computeTotals HST_RATE example_cart) = 2712"
proof -
  have m: "(\<Sum>it\<leftarrow>example_cart. \<bar>unit_price_cents it * qty it\<bar>) = 2400"
    by (simp add: example_cart_def)
  have h: "hst (computeTotals HST_RATE example_cart) = 312"
    by (simp add: computeTotals_example_cart)
  from computeTotals_exact [of example_cart HST_RATE] m
  have s: "subtotal (computeTotals HST_RATE example_cart) = 2400"
    and t: "\<bar>subtotal (computeTotals HST_RATE example_cart)
             + hst (computeTotals HST_RATE example_cart)\<bar> \<le> 2 ^ 53 \<longrightarrow>
        total_amt (computeTotals HST_RATE example_cart)
          = subtotal (computeTotals HST_RATE example_cart)
            + hst (computeTotals HST_RATE example_cart)"
    by simp_all
  from t have "total_amt (computeTotals HST_RATE example_cart) = 2712"
    by (simp add: s h)
  with m s h show ?thesis by (intro conjI)
qed

text \<open>
  Past \<open>2 ^ 53\<close> the sums are rounded. The lines
  \<open>[(9007199254740992, 1), (1, 1), (1, 1)]\<close> have the exact subtotal
  9007199254740994; the reduce returns 9007199254740992, since each addition of 1 is
  rounded away, and the total it returns is one cent less than the returned subtotal
  plus the returned tax.
\<close>

theorem computeTotals_subtotal_rounded:
  "(\<Sum>it\<leftarrow>large_cart. unit_price_cents it * qty it) = 9007199254740994
   \<and> subtotal (computeTotals HST_RATE large_cart) = 9007199254740992
   \<and> subtotal (computeTotals HST_RATE large_cart)
       \<noteq> of_int (\<Sum>it\<leftarrow>large_cart. unit_price_cents it * qty it)
   \<and> hst (computeTotals HST_RATE large_cart) = 1170935903116329
   \<and> total_amt (computeTotals HST_RATE large_cart) = 10178135157857320
   \<and> total_amt (computeTotals HST_RATE large_cart)
       \<noteq> subtotal (computeTotals HST_RATE large_cart) + hst (computeTotals HST_RATE large_cart)"
proof -
  have "(\<Sum>it\<leftarrow>large_cart. unit_price_cents it * qty it) = 9007199254740994"
    by (simp add: large_cart_def)
  then show ?thesis
    by (simp add: computeTotals_large_cart)
qed

text \<open>
  Claim C10, in the range where it holds. Two carts with the same lines, in any order,
  have the same subtotal, tax and total when the magnitudes of the line amounts sum to
  at most \<open>2 ^ 53\<close>.
\<close>

theorem computeTotals_permutation:
  assumes "mset items = mset items'"
    and "(\<Sum>it\<leftarrow>items. \<bar>unit_price_cents it * qty it\<bar>) \<le> 2 ^ 53"
  shows "computeTotals rate items = computeTotals rate items'"
proof -
  have m: "line_magnitude items' = line_magnitude items"
    unfolding line_magnitude_def using assms(1) by (intro sum_list_mset_cong) simp
  have l: "line_sum items' = line_sum items"
    unfolding line_sum_def using assms(1) by (intro sum_list_mset_cong) simp
  from assms(2) have b: "line_magnitude items \<le> 2 ^ 53"
    by (simp only: line_magnitude_def)
  then have b': "line_magnitude items' \<le> 2 ^ 53"
    by (simp only: m)
  have "subtotal (computeTotals rate items) = of_int (line_sum items)"
    using b by (rule subtotal_computeTotals)
  moreover have "subtotal (computeTotals rate items') = of_int (line_sum items')"
    using b' by (rule subtotal_computeTotals)
  ultimately have "subtotal (computeTotals rate items) = subtotal (computeTotals rate items')"
    by (simp only: l)
  then show ?thesis by (rule computeTotals_subtotal_cong)
qed

theorem computeTotals_permutation_witness:
  "mset example_cart = mset (rev example_cart)
   \<and> (\<Sum>it\<leftarrow>example_cart. \<bar>unit_price_cents it * qty it\<bar>) = 2400
   \<and> computeTotals HST_RATE (rev example_cart)
       = \<lparr>subtotal = 2400, hst = 312, total_amt = 2712\<rparr>"
proof -
  have m: "(\<Sum>it\<leftarrow>example_cart. \<bar>unit_price_cents it * qty it\<bar>) = 2400"
    by (simp add: example_cart_def)
  from computeTotals_permutation [of example_cart "rev example_cart" HST_RATE] m
  have "computeTotals HST_RATE example_cart = computeTotals HST_RATE (rev example_cart)"
    by simp
  with m show ?thesis
    by (simp add: computeTotals_example_cart)
qed

text \<open>
  Past \<open>2 ^ 53\<close> the order of the lines matters. The lines
  \<open>[(9007199254740992, 1), (1, 1), (1, 1)]\<close> give the subtotal 9007199254740992,
  and the same lines in the reverse order give 9007199254740994.
\<close>

theorem computeTotals_order_sensitive:
  "mset (rev large_cart) = mset large_cart
   \<and> subtotal (computeTotals HST_RATE large_cart) = 9007199254740992
   \<and> subtotal (computeTotals HST_RATE (rev large_cart)) = 9007199254740994
   \<and> computeTotals HST_RATE (rev large_cart) \<noteq> computeTotals HST_RATE large_cart"
  by (simp add: computeTotals_large_cart computeTotals_rev_large_cart)




section \<open>The claims about the cart\<close>

lemma find_first_sku:
  "k \<in> sku ` set cart \<Longrightarrow>
   find (\<lambda>x. sku x = k) cart = Some (cart ! length (takeWhile (\<lambda>x. sku x \<noteq> k) cart))"
  by (induction cart) auto

lemma js_plus_int_burgers: "js_plus_int 9007199254740992 1 = 9007199254740992"
  by code_simp

text \<open>
  Claim C5, in the range where it holds. A valid add (a sku of the catalogue, a
  quantity from 1 to 10) succeeds. If the cart has a line with that sku, and the
  quantity of the first such line plus the requested amount has a magnitude of at most
  \<open>2 ^ 53\<close>, the quantity of that line grows by the requested amount and no line is
  added; if the cart has no line with that sku, a line is appended with the requested
  quantity and the name and price of the product in the catalogue. Adding one burger
  and then two more leaves one line with quantity 3.
\<close>

theorem api_cart_add_valid:
  assumes "map_of kvs ''sku'' = Some (JString k)" and "map_of kvs ''qty'' = Some (JNumber (of_int n))"
    and "find (\<lambda>x. sku x = k) PRODUCTS = Some p" and "1 \<le> n" and "n \<le> 10"
    and "\<forall>existing. find (\<lambda>x. sku x = k) (view s) = Some existing \<longrightarrow>
           \<bar>qty existing + n\<bar> \<le> 2 ^ 53"
  shows "api_cart_add (JObject kvs) s =
     (Json True,
      s\<lparr>session_cart := Some
        (let cart = view s; i = length (takeWhile (\<lambda>x. sku x \<noteq> k) cart)
         in if k \<in> sku ` set cart then cart[i := (cart ! i)\<lparr>qty := qty (cart ! i) + n\<rparr>]
            else cart @ [\<lparr>sku = k, name = name p, qty = n,
                          unit_price_cents = price_cents p\<rparr>])\<rparr>)"
proof -
  from assms(3) have "k \<in> sku ` set PRODUCTS"
    using find_None_iff_sku [of k PRODUCTS] by auto
  with assms have "addSchema (JObject kvs) = Some (k, n)"
    by (simp add: addSchema_def sku_schema_string qty_schema_number)
  from this assms(3) have a: "api_cart_add (JObject kvs) s =
     (Json True,
      s\<lparr>session_cart := Some
        (let cart = view s; i = length (takeWhile (\<lambda>x. sku x \<noteq> k) cart)
         in if k \<in> sku ` set cart
            then cart[i := (cart ! i)\<lparr>qty := js_plus_int (qty (cart ! i)) n\<rparr>]
            else cart @ [\<lparr>sku = k, name = name p, qty = n,
                          unit_price_cents = price_cents p\<rparr>])\<rparr>)"
    by (rule api_cart_add_parsed)
  have "js_plus_int (qty (view s ! length (takeWhile (\<lambda>x. sku x \<noteq> k) (view s)))) n
      = qty (view s ! length (takeWhile (\<lambda>x. sku x \<noteq> k) (view s))) + n"
    if "k \<in> sku ` set (view s)"
    using assms(6) find_first_sku [OF that] by (intro js_plus_int_exact) simp
  then show ?thesis
    unfolding a by (simp add: Let_def)
qed

theorem api_cart_add_valid_witness:
  "map_of [(''sku'', JString ''burger''), (''qty'', JNumber 1)] ''sku'' = Some (JString ''burger'')
   \<and> find (\<lambda>x. sku x = ''burger'') PRODUCTS
       = Some \<lparr>sku = ''burger'', name = ''Burger'', price_cents = 1000\<rparr>
   \<and> view (snd (api_cart_add (JObject [(''sku'', JString ''burger''), (''qty'', JNumber 2)])
        (snd (api_cart_add (JObject [(''sku'', JString ''burger''), (''qty'', JNumber 1)])
           initial_state))))
     = [\<lparr>sku = ''burger'', name = ''Burger'', qty = 3, unit_price_cents = 1000\<rparr>]"
proof -
  let ?p = "\<lparr>sku = ''burger'', name = ''Burger'', price_cents = 1000\<rparr>"
  let ?s = "initial_state\<lparr>session_cart :=
    Some [\<lparr>sku = ''burger'', name = ''Burger'', qty = 1, unit_price_cents = 1000\<rparr>]\<rparr>"
  have p: "find (\<lambda>x. sku x = ''burger'') PRODUCTS = Some ?p"
    by (simp add: PRODUCTS_def)
  have v: "view initial_state = []"
    by (simp add: initial_state_def view_eq)
  from api_cart_add_valid [of "[(''sku'', JString ''burger''), (''qty'', JNumber 1)]"
      "''burger''" 1 ?p initial_state] p
  have 1: "api_cart_add (JObject [(''sku'', JString ''burger''), (''qty'', JNumber 1)])
      initial_state = (Json True, ?s)"
    by (simp add: v)
  from api_cart_add_valid [of "[(''sku'', JString ''burger''), (''qty'', JNumber 2)]"
      "''burger''" 2 ?p ?s] p
  have 2: "api_cart_add (JObject [(''sku'', JString ''burger''), (''qty'', JNumber 2)]) ?s
      = (Json True, ?s\<lparr>session_cart :=
          Some [\<lparr>sku = ''burger'', name = ''Burger'', qty = 3, unit_price_cents = 1000\<rparr>]\<rparr>)"
    by simp
  from p show ?thesis
    by (simp add: 1 2)
qed

text \<open>
  Past \<open>2 ^ 53\<close> the quantity is rounded. A valid add of one burger to a cart that
  holds 9007199254740992 burgers succeeds and leaves the quantity at 9007199254740992.
\<close>

theorem api_cart_add_rounded:
  "view burgers_state
     = [\<lparr>sku = ''burger'', name = ''Burger'', qty = 9007199254740992, unit_price_cents = 1000\<rparr>]
   \<and> fst (api_cart_add (JObject [(''sku'', JString ''burger''), (''qty'', JNumber 1)])
        burgers_state) = Json True
   \<and> view (snd (api_cart_add (JObject [(''sku'', JString ''burger''), (''qty'', JNumber 1)])
        burgers_state))
     = [\<lparr>sku = ''burger'', name = ''Burger'', qty = 9007199254740992, unit_price_cents = 1000\<rparr>]"
proof -
  have p: "find (\<lambda>x. sku x = ''burger'') PRODUCTS
      = Some \<lparr>sku = ''burger'', name = ''Burger'', price_cents = 1000\<rparr>"
    by (simp add: PRODUCTS_def)
  have "addSchema (JObject [(''sku'', JString ''burger''), (''qty'', JNumber 1)])
      = Some (''burger'', 1)"
    using qty_schema_number [of 1]
    by (simp add: addSchema_def sku_schema_string PRODUCTS_def)
  from api_cart_add_parsed [OF this p, of burgers_state] show ?thesis
    by (simp add: burgers_state_def js_plus_int_burgers)
qed

text \<open>
  Claim C6. An add whose sku is not in the catalogue, or whose quantity is below 1,
  above 10 or not an integer, is refused with status 400 and leaves the session as it
  was. The server has one error code for both refusals, \<open>invalid_input\<close>.
\<close>

theorem api_cart_add_invalid:
  assumes "map_of kvs ''sku'' = Some (JString k)" and "map_of kvs ''qty'' = Some (JNumber r)"
    and "k \<notin> sku ` set PRODUCTS \<or> r < 1 \<or> 10 < r \<or> r \<notin> \<int>"
  shows "api_cart_add (JObject kvs) s = (Status 400 invalid_input, s)"
proof -
  have "sku_schema (map_of kvs ''sku'') = None \<or> qty_schema (map_of kvs ''qty'') = None"
    using assms by (auto simp: qty_schema_number sku_schema_string)
  then have "addSchema (JObject kvs) = None"
    by (auto simp: addSchema_def split: option.splits)
  then show ?thesis by (simp add: api_cart_add_def)
qed

theorem api_cart_add_invalid_witness:
  "map_of [(''sku'', JString ''pizza''), (''qty'', JNumber 1)] ''sku'' = Some (JString ''pizza'')
   \<and> ''pizza'' \<notin> sku ` set PRODUCTS
   \<and> api_cart_add (JObject [(''sku'', JString ''pizza''), (''qty'', JNumber 1)]) example_state
       = (Status 400 invalid_input, example_state)
   \<and> api_cart_add (JObject [(''sku'', JString ''burger''), (''qty'', JNumber 11)]) example_state
       = (Status 400 invalid_input, example_state)"
proof -
  have p: "''pizza'' \<notin> sku ` set PRODUCTS" by (simp add: PRODUCTS_def)
  from p api_cart_add_invalid [of "[(''sku'', JString ''pizza''), (''qty'', JNumber 1)]"
      "''pizza''" 1 example_state]
    api_cart_add_invalid [of "[(''sku'', JString ''burger''), (''qty'', JNumber 11)]"
      "''burger''" 11 example_state]
  show ?thesis by simp
qed

text \<open>
  Claim C9, in the range where it holds. An add whose body has no \<open>qty\<close> key is
  accepted and counts as an add of quantity 1: the first line with the sku gains one
  unit when its quantity plus 1 has a magnitude of at most \<open>2 ^ 53\<close>, and a line with
  quantity 1 is appended when the cart has no line with the sku.
\<close>

theorem api_cart_add_default_qty:
  assumes "map_of kvs ''sku'' = Some (JString k)" and "map_of kvs ''qty'' = None"
    and "find (\<lambda>x. sku x = k) PRODUCTS = Some p"
    and "\<forall>existing. find (\<lambda>x. sku x = k) (view s) = Some existing \<longrightarrow>
           \<bar>qty existing + 1\<bar> \<le> 2 ^ 53"
  shows "api_cart_add (JObject kvs) s =
     (Json True,
      s\<lparr>session_cart := Some
        (let cart = view s; i = length (takeWhile (\<lambda>x. sku x \<noteq> k) cart)
         in if k \<in> sku ` set cart then cart[i := (cart ! i)\<lparr>qty := qty (cart ! i) + 1\<rparr>]
            else cart @ [\<lparr>sku = k, name = name p, qty = 1,
                          unit_price_cents = price_cents p\<rparr>])\<rparr>)"
proof -
  from assms(3) have "k \<in> sku ` set PRODUCTS"
    using find_None_iff_sku [of k PRODUCTS] by auto
  with assms have "addSchema (JObject kvs) = Some (k, 1)"
    by (simp add: addSchema_def sku_schema_string qty_schema_def)
  from this assms(3) have a: "api_cart_add (JObject kvs) s =
     (Json True,
      s\<lparr>session_cart := Some
        (let cart = view s; i = length (takeWhile (\<lambda>x. sku x \<noteq> k) cart)
         in if k \<in> sku ` set cart
            then cart[i := (cart ! i)\<lparr>qty := js_plus_int (qty (cart ! i)) 1\<rparr>]
            else cart @ [\<lparr>sku = k, name = name p, qty = 1,
                          unit_price_cents = price_cents p\<rparr>])\<rparr>)"
    by (rule api_cart_add_parsed)
  have "js_plus_int (qty (view s ! length (takeWhile (\<lambda>x. sku x \<noteq> k) (view s)))) 1
      = qty (view s ! length (takeWhile (\<lambda>x. sku x \<noteq> k) (view s))) + 1"
    if "k \<in> sku ` set (view s)"
    using assms(4) find_first_sku [OF that] by (intro js_plus_int_exact) simp
  then show ?thesis
    unfolding a by (simp add: Let_def)
qed

theorem api_cart_add_default_qty_witness:
  "map_of [(''sku'', JString ''coke'')] ''qty'' = None
   \<and> api_cart_add (JObject [(''sku'', JString ''coke'')]) initial_state
       = (Json True, initial_state\<lparr>session_cart :=
            Some [\<lparr>sku = ''coke'', name = ''Coke'', qty = 1, unit_price_cents = 300\<rparr>]\<rparr>)
   \<and> view (snd (api_cart_add (JObject [(''sku'', JString ''coke'')]) example_state))
       = [\<lparr>sku = ''burger'', name = ''Burger'', qty = 1, unit_price_cents = 1000\<rparr>,
          \<lparr>sku = ''fries'', name = ''Fries'', qty = 1, unit_price_cents = 800\<rparr>,
          \<lparr>sku = ''coke'', name = ''Coke'', qty = 3, unit_price_cents = 300\<rparr>]"
proof -
  have p: "find (\<lambda>x. sku x = ''coke'') PRODUCTS
      = Some \<lparr>sku = ''coke'', name = ''Coke'', price_cents = 300\<rparr>"
    by (simp add: PRODUCTS_def)
  have v: "view initial_state = []"
    by (simp add: initial_state_def view_eq)
  have v': "view example_state = example_cart"
    by (simp add: example_state_def)
  from api_cart_add_default_qty [of "[(''sku'', JString ''coke'')]" "''coke''" _ initial_state,
      OF _ _ p]
  have 1: "api_cart_add (JObject [(''sku'', JString ''coke'')]) initial_state
       = (Json True, initial_state\<lparr>session_cart :=
            Some [\<lparr>sku = ''coke'', name = ''Coke'', qty = 1, unit_price_cents = 300\<rparr>]\<rparr>)"
    by (simp add: v)
  from api_cart_add_default_qty [of "[(''sku'', JString ''coke'')]" "''coke''" _ example_state,
      OF _ _ p]
  have 2: "view (snd (api_cart_add (JObject [(''sku'', JString ''coke'')]) example_state))
       = [\<lparr>sku = ''burger'', name = ''Burger'', qty = 1, unit_price_cents = 1000\<rparr>,
          \<lparr>sku = ''fries'', name = ''Fries'', qty = 1, unit_price_cents = 800\<rparr>,
          \<lparr>sku = ''coke'', name = ''Coke'', qty = 3, unit_price_cents = 300\<rparr>]"
    by (simp add: v' example_cart_def)
  from 1 2 show ?thesis by simp
qed

text \<open>
  Past \<open>2 ^ 53\<close> the default unit is rounded away. An add of a burger with no \<open>qty\<close>
  key to a cart that holds 9007199254740992 burgers succeeds and leaves the quantity at
  9007199254740992.
\<close>

theorem api_cart_add_default_qty_rounded:
  "map_of [(''sku'', JString ''burger'')] ''qty'' = None
   \<and> fst (api_cart_add (JObject [(''sku'', JString ''burger'')]) burgers_state) = Json True
   \<and> view (snd (api_cart_add (JObject [(''sku'', JString ''burger'')]) burgers_state))
     = [\<lparr>sku = ''burger'', name = ''Burger'', qty = 9007199254740992, unit_price_cents = 1000\<rparr>]"
proof -
  have p: "find (\<lambda>x. sku x = ''burger'') PRODUCTS
      = Some \<lparr>sku = ''burger'', name = ''Burger'', price_cents = 1000\<rparr>"
    by (simp add: PRODUCTS_def)
  have "addSchema (JObject [(''sku'', JString ''burger'')]) = Some (''burger'', 1)"
    by (simp add: addSchema_def sku_schema_string qty_schema_def PRODUCTS_def)
  from api_cart_add_parsed [OF this p, of burgers_state] show ?thesis
    by (simp add: burgers_state_def js_plus_int_burgers)
qed

section \<open>The claims about the checkout\<close>



lemma api_checkout_fails:
  assumes "view s \<noteq> []" and "\<not> f GetConnection" and "\<not> calls_succeed f (length (view s))"
  shows "\<exists>db. checkout_try f rate (view s) (computeTotals rate (view s))
            (store s, \<lparr>tx_orders = [], tx_order_items = []\<rparr>) = Inl db
          \<and> api_checkout rate f s =
              (if f Rollback then (Unhandled, s\<lparr>store := fst db\<rparr>)
               else (Status 500 checkout_failed, s\<lparr>store := fst (rollback db)\<rparr>))"
proof (cases "checkout_try f rate (view s) (computeTotals rate (view s))
                (store s, \<lparr>tx_orders = [], tx_order_items = []\<rparr>)")
  case (Inl db)
  with assms(2) show ?thesis
    by (simp add: api_checkout_nonempty [OF assms(1)])
next
  case (Inr p)
  then have "\<exists>r. checkout_try f rate (view s) (computeTotals rate (view s))
                (store s, \<lparr>tx_orders = [], tx_order_items = []\<rparr>) = Inr r"
    by (rule exI)
  then have "calls_succeed f (length (view s))"
    by (simp only: checkout_try_Inr_iff)
  with assms(3) show ?thesis by contradiction
qed

text \<open>
  A checkout of a non-empty cart that has its connection, and in which
  \<open>beginTransaction\<close>, the insert of the order, the insert of a line or the commit
  fails, persists no row of \<open>orders\<close> and no row of \<open>order_items\<close> and leaves the
  cart of the session as it was. The reply is status 500 with \<open>checkout_failed\<close> when
  the rollback succeeds, and none when the rollback throws.
\<close>

lemma api_checkout_failure_atomic:
  assumes "view s \<noteq> []" and "\<not> f GetConnection"
    and "f BeginTransaction \<or> f InsertOrder \<or> (\<exists>i<length (view s). f (InsertOrderItem i))
         \<or> f Commit"
  shows "orders (store (snd (api_checkout rate f s))) = orders (store s)
    \<and> order_items (store (snd (api_checkout rate f s))) = order_items (store s)
    \<and> session_cart (snd (api_checkout rate f s)) = session_cart s
    \<and> fst (api_checkout rate f s)
        = (if f Rollback then Unhandled else Status 500 checkout_failed)"
proof -
  from assms(3) have "\<not> calls_succeed f (length (view s))"
    by (auto simp: calls_succeed_def)
  with assms(1,2) obtain db where
    tr: "checkout_try f rate (view s) (computeTotals rate (view s))
            (store s, \<lparr>tx_orders = [], tx_order_items = []\<rparr>) = Inl db"
    and co: "api_checkout rate f s =
              (if f Rollback then (Unhandled, s\<lparr>store := fst db\<rparr>)
               else (Status 500 checkout_failed, s\<lparr>store := fst (rollback db)\<rparr>))"
    using api_checkout_fails by blast
  from checkout_try_Inl [OF tr] show ?thesis
    by (simp add: co rollback_def)
qed

text \<open>
  Claim C2, at the input where the code departs from it. The cart holds the three lines
  of the example; the insert of the order fails, and \<open>conn.rollback()\<close> fails as well,
  as both do when the connection is lost. The \<open>catch\<close> block awaits the rollback
  outside every \<open>try\<close>, so the handler throws before it sends \<open>checkout_failed\<close>: the
  caller does not receive the error of the claim. No row is persisted and the cart is
  as it was. When only the insert of the order fails, the reply is status 500 with
  \<open>checkout_failed\<close>.
\<close>

theorem api_checkout_rollback_rejects:
  "fst (api_checkout HST_RATE (\<lambda>c. c = InsertOrder \<or> c = Rollback) example_state) = Unhandled
   \<and> orders (store (snd (api_checkout HST_RATE (\<lambda>c. c = InsertOrder \<or> c = Rollback)
        example_state))) = []
   \<and> order_items (store (snd (api_checkout HST_RATE (\<lambda>c. c = InsertOrder \<or> c = Rollback)
        example_state))) = []
   \<and> session_cart (snd (api_checkout HST_RATE (\<lambda>c. c = InsertOrder \<or> c = Rollback)
        example_state)) = Some example_cart
   \<and> fst (api_checkout HST_RATE (\<lambda>c. c = InsertOrder) example_state)
       = Status 500 checkout_failed"
proof -
  have v: "view example_state = example_cart"
    by (simp add: example_state_def)
  have n: "example_cart \<noteq> []"
    by (simp add: example_cart_def)
  from api_checkout_failure_atomic [of example_state "\<lambda>c. c = InsertOrder \<or> c = Rollback" HST_RATE]
    api_checkout_failure_atomic [of example_state "\<lambda>c. c = InsertOrder" HST_RATE]
  show ?thesis
    by (simp add: v n) (simp add: example_state_def initial_state_def)
qed





lemma api_checkout_all_or_nothing:
  "orders (store (snd (api_checkout rate f s))) = orders (store s)
     \<and> order_items (store (snd (api_checkout rate f s))) = order_items (store s)
     \<and> auto_increment (store s) \<le> auto_increment (store (snd (api_checkout rate f s)))
   \<or> view s \<noteq> []
     \<and> store (snd (api_checkout rate f s)) =
         (store s)\<lparr>orders := orders (store s) @ [new_order rate s],
           order_items := order_items (store s)
             @ map (order_item_values (auto_increment (store s))) (view s),
           auto_increment := Suc (auto_increment (store s))\<rparr>"
proof (cases "fst (api_checkout rate f s)
    = Json (receipt_of rate (auto_increment (store s)) (view s) (computeTotals rate (view s)))")
  case True
  define s' where "s' = snd (api_checkout rate f s)"
  with True have e: "api_checkout rate f s
    = (Json (receipt_of rate (auto_increment (store s)) (view s) (computeTotals rate (view s))),
       s')"
    by (simp add: prod_eq_iff)
  from api_checkout_Json(1) [OF e] api_checkout_Json(3) [OF e] show ?thesis
    unfolding s'_def [symmetric] by simp
next
  case False
  from api_checkout_not_Json [OF False] show ?thesis by simp
qed

text \<open>
  Claim C7. A checkout of a cart with no line is refused with status 400 and
  \<open>cart_empty\<close>; it leaves the store as it was and the cart empty. Whatever the cart
  and whichever calls fail, a checkout either adds no row to \<open>orders\<close>, or the cart
  has a line and the checkout adds one order and one row of \<open>order_items\<close> for each
  line of the cart, with the identifier of that order: no order is created without a
  line.
\<close>

theorem api_checkout_empty_cart:
  "(view s = [] \<longrightarrow>
      api_checkout rate f s = (Status 400 cart_empty, s\<lparr>session_cart := Some []\<rparr>)
      \<and> store (snd (api_checkout rate f s)) = store s
      \<and> view (snd (api_checkout rate f s)) = view s)
   \<and> (orders (store (snd (api_checkout rate f s))) = orders (store s)
      \<or> view s \<noteq> []
        \<and> orders (store (snd (api_checkout rate f s))) = orders (store s) @ [new_order rate s]
        \<and> order_items (store (snd (api_checkout rate f s)))
            = order_items (store s)
              @ map (order_item_values (insertId (new_order rate s))) (view s)
        \<and> order_lines (store (snd (api_checkout rate f s))) (insertId (new_order rate s))
            \<noteq> [])"
proof -
  have k: "insertId (new_order rate s) = auto_increment (store s)"
    by (simp add: new_order_def Let_def)
  have "filter (\<lambda>l. order_id l = k) (map (order_item_values k) cart) \<noteq> []"
    if "cart \<noteq> []" for k cart
    using that by (cases cart) (simp_all add: order_item_values_def Let_def)
  with api_checkout_all_or_nothing [of rate f s] show ?thesis
    by (auto simp: api_checkout_empty k order_lines_def)
qed

theorem api_checkout_empty_cart_witness:
  "view initial_state = []
   \<and> api_checkout HST_RATE (\<lambda>c. False) initial_state
       = (Status 400 cart_empty, initial_state\<lparr>session_cart := Some []\<rparr>)
   \<and> orders (store (snd (api_checkout HST_RATE (\<lambda>c. False) initial_state))) = []
   \<and> order_items (store (snd (api_checkout HST_RATE (\<lambda>c. False) initial_state))) = []"
proof -
  have v: "view initial_state = []"
    by (simp add: initial_state_def view_eq)
  with api_checkout_empty_cart [of initial_state HST_RATE "\<lambda>c. False"]
  have "api_checkout HST_RATE (\<lambda>c. False) initial_state
       = (Status 400 cart_empty, initial_state\<lparr>session_cart := Some []\<rparr>)"
    by blast
  with v show ?thesis by (simp add: initial_state_def)
qed




lemma requests_keep_store:
  "store (snd (api_cart rate s)) = store s"
  "store (snd (api_cart_add body s)) = store s"
  "store (snd (api_cart_clear s)) = store s"
  by (simp_all add: api_cart_def api_cart_add_def api_cart_clear_def getCart_eq Let_def
        split: option.splits prod.splits)





end
